theory Spec2Isabelle
  imports Complex_Main
begin

section \<open>JavaScript values carried by an operation\<close>

text \<open>
  The server receives operations as deserialised JSON. The fields that
  \<^verbatim>\<open>DrawingStateManager\<close> inspects (\<^verbatim>\<open>id\<close>, \<^verbatim>\<open>userId\<close>, \<^verbatim>\<open>type\<close>, \<^verbatim>\<open>timestamp\<close>) are
  modelled as JavaScript primitive values; \<open>JUndefined\<close> is the value of a
  property that is absent. \<open>JNum n\<close> is the Number with the integral value \<open>n\<close>
  (counters and millisecond timestamps), so \<open>NaN\<close>, the infinities, negative
  zero and fractions do not occur as field values, and \<^verbatim>\<open>===\<close> as well as the
  SameValueZero comparison of \<^verbatim>\<open>Map\<close> keys coincide with HOL equality on
  \<open>jsval\<close>. A string is its sequence of code units, each below 256.

  A field whose value is itself an object or an array is outside this model.
  On the primitive values modelled here none of the conversions that
  \<^verbatim>\<open>detectConflict\<close> and \<^verbatim>\<open>resolveConflict\<close> apply (ToNumber in the subtraction and
  the comparison, ToString in the template literals) can raise an exception;
  on an object they can.
\<close>

datatype jsval = JUndefined | JNull | JBool bool | JNum int | JStr string

text \<open>ToBoolean: what \<^verbatim>\<open>!v\<close> negates.\<close>

fun truthy :: "jsval \<Rightarrow> bool" where
  "truthy JUndefined = False"
| "truthy JNull = False"
| "truthy (JBool b) = b"
| "truthy (JNum n) = (n \<noteq> 0)"
| "truthy (JStr s) = (s \<noteq> [])"

text \<open>
  The result of ToNumber: \<open>NaN\<close>, an infinity, or a finite double given by its
  exact rational value (the sign of zero is not kept).
\<close>

datatype jsnumber = NaN | PosInfinity | NegInfinity | Finite rat

text \<open>
  Rounding of a real value to the nearest double (IEEE 754 binary64, ties to
  even): 53 significant bits, exponent of the last bit at least \<open>-1074\<close>, and a
  result of magnitude \<open>2^1024\<close> or more is infinite. \<open>floor_log2 a\<close> is the
  exponent of the leading bit of a positive \<open>a\<close>.
\<close>

definition pow2 :: "int \<Rightarrow> rat" where
  "pow2 e = (if 0 \<le> e then 2 ^ nat e else 1 / 2 ^ nat (- e))"

definition pow10 :: "int \<Rightarrow> rat" where
  "pow10 e = (if 0 \<le> e then 10 ^ nat e else 1 / 10 ^ nat (- e))"

function bit_length :: "int \<Rightarrow> int" where
  "bit_length n = (if n \<le> 0 then 0 else 1 + bit_length (n div 2))"
  by pat_completeness auto
termination
  by (relation "measure nat") auto

definition floor_log2 :: "rat \<Rightarrow> int" where
  "floor_log2 a =
     (let k = bit_length (fst (quotient_of a)) - bit_length (snd (quotient_of a))
      in if pow2 k \<le> a then k else k - 1)"

definition round_half_even :: "rat \<Rightarrow> int" where
  "round_half_even q =
     (let f = \<lfloor>q\<rfloor>; r = q - of_int f
      in if r < 1 / 2 then f
         else if 1 / 2 < r then f + 1
         else if even f then f else f + 1)"

definition round_double :: "rat \<Rightarrow> jsnumber" where
  "round_double x =
     (if x = 0 then Finite 0
      else
        let a = \<bar>x\<bar>;
            e = max (floor_log2 a - 52) (- 1074);
            v = of_int (round_half_even (a / pow2 e)) * pow2 e
        in if pow2 1024 \<le> v then (if 0 < x then PosInfinity else NegInfinity)
           else Finite (if 0 < x then v else - v))"

text \<open>
  StringToNumber: white space and line terminators are stripped at both
  ends; what is left is empty (the value \<open>0\<close>), a radix literal (\<^verbatim>\<open>0x\<close>, \<^verbatim>\<open>0o\<close>,
  \<^verbatim>\<open>0b\<close> and digits, unsigned), or an optionally signed decimal literal
  (\<^verbatim>\<open>Infinity\<close>, or digits with an optional fraction and an optional exponent);
  anything else is \<open>NaN\<close>. The mathematical value is rounded to a double.
\<close>

definition is_white :: "char \<Rightarrow> bool" where
  "is_white c = (c \<in> set [CHR 0x09, CHR 0x0A, CHR 0x0B, CHR 0x0C, CHR 0x0D, CHR 0x20, CHR 0xA0])"

definition trim :: "string \<Rightarrow> string" where
  "trim s = rev (dropWhile is_white (rev (dropWhile is_white s)))"

definition digit_of :: "char \<Rightarrow> int option" where
  "digit_of c =
     (let n = (of_char c :: int)
      in if 48 \<le> n \<and> n \<le> 57 then Some (n - 48)
         else if 97 \<le> n \<and> n \<le> 102 then Some (n - 87)
         else if 65 \<le> n \<and> n \<le> 70 then Some (n - 55)
         else None)"

definition is_digit :: "int \<Rightarrow> char \<Rightarrow> bool" where
  "is_digit radix c = (case digit_of c of Some d \<Rightarrow> d < radix | None \<Rightarrow> False)"

definition digits_value :: "int \<Rightarrow> string \<Rightarrow> int" where
  "digits_value radix ds =
     foldl (\<lambda>acc c. radix * acc + (case digit_of c of Some d \<Rightarrow> d | None \<Rightarrow> 0)) 0 ds"

definition radix_literal :: "int \<Rightarrow> string \<Rightarrow> jsnumber" where
  "radix_literal radix ds =
     (if ds \<noteq> [] \<and> list_all (is_digit radix) ds
      then round_double (of_int (digits_value radix ds))
      else NaN)"

definition exponent_part :: "string \<Rightarrow> int option" where
  "exponent_part s =
     (case s of
        [] \<Rightarrow> Some 0
      | c # r \<Rightarrow>
          if c = CHR ''e'' \<or> c = CHR ''E'' then
            (let neg = (r \<noteq> [] \<and> hd r = CHR ''-'');
                 ds = (if r \<noteq> [] \<and> (hd r = CHR ''-'' \<or> hd r = CHR ''+'') then tl r else r)
             in if ds \<noteq> [] \<and> list_all (is_digit 10) ds
                then Some (if neg then - digits_value 10 ds else digits_value 10 ds)
                else None)
          else None)"

definition unsigned_decimal :: "string \<Rightarrow> jsnumber" where
  "unsigned_decimal u =
     (if u = ''Infinity'' then PosInfinity
      else
        let ds1 = takeWhile (is_digit 10) u;
            r1 = dropWhile (is_digit 10) u;
            dot = (r1 \<noteq> [] \<and> hd r1 = CHR ''.'');
            ds2 = (if dot then takeWhile (is_digit 10) (tl r1) else []);
            r2 = (if dot then dropWhile (is_digit 10) (tl r1) else r1)
        in if ds1 = [] \<and> ds2 = [] then NaN
           else case exponent_part r2 of
                  None \<Rightarrow> NaN
                | Some e \<Rightarrow>
                    round_double (of_int (digits_value 10 (ds1 @ ds2)) * pow10 (e - int (length ds2))))"

fun negate :: "jsnumber \<Rightarrow> jsnumber" where
  "negate NaN = NaN"
| "negate PosInfinity = NegInfinity"
| "negate NegInfinity = PosInfinity"
| "negate (Finite x) = Finite (- x)"

definition string_to_number :: "string \<Rightarrow> jsnumber" where
  "string_to_number s =
     (let t = trim s in
      if t = [] then Finite 0
      else if take 2 t = ''0x'' \<or> take 2 t = ''0X'' then radix_literal 16 (drop 2 t)
      else if take 2 t = ''0o'' \<or> take 2 t = ''0O'' then radix_literal 8 (drop 2 t)
      else if take 2 t = ''0b'' \<or> take 2 t = ''0B'' then radix_literal 2 (drop 2 t)
      else if hd t = CHR ''-'' then negate (unsigned_decimal (tl t))
      else if hd t = CHR ''+'' then unsigned_decimal (tl t)
      else unsigned_decimal t)"

text \<open>ToNumber on the primitive values.\<close>

fun to_number :: "jsval \<Rightarrow> jsnumber" where
  "to_number JUndefined = NaN"
| "to_number JNull = Finite 0"
| "to_number (JBool b) = Finite (if b then 1 else 0)"
| "to_number (JNum n) = Finite (of_int n)"
| "to_number (JStr s) = string_to_number s"

text \<open>
  Template-literal rendering of an integral number (plain decimal digits,
  as JavaScript prints an integer of magnitude below \<open>10^21\<close>), used for the
  identifier of the synthetic clear operation.
\<close>

definition digit_char :: "int \<Rightarrow> char" where
  "digit_char d = ''0123456789'' ! nat d"

function decimal_digits :: "int \<Rightarrow> string" where
  "decimal_digits n =
     (if n < 10 then [digit_char n]
      else decimal_digits (n div 10) @ [digit_char (n mod 10)])"
  by pat_completeness auto
termination
  by (relation "measure nat") auto

definition string_of_int :: "int \<Rightarrow> string" where
  "string_of_int i =
     (if i < 0 then CHR ''-'' # decimal_digits (- i) else decimal_digits i)"

section \<open>Arrays and Maps\<close>

text \<open>
  \<^verbatim>\<open>Array.prototype.slice(start, end)\<close>: a negative index counts from the end,
  and both indices are clamped to the array.
\<close>

definition relative_index :: "nat \<Rightarrow> int \<Rightarrow> int" where
  "relative_index len i = (if i < 0 then max (int len + i) 0 else min i (int len))"

definition array_slice :: "'a list \<Rightarrow> int \<Rightarrow> int \<Rightarrow> 'a list" where
  "array_slice xs start fin =
     (let k = relative_index (length xs) start;
          final = relative_index (length xs) fin
      in take (nat (final - k)) (drop (nat k) xs))"

text \<open>\<^verbatim>\<open>xs[i]\<close>: \<open>None\<close> stands for the \<^verbatim>\<open>undefined\<close> of an index out of range.\<close>

definition array_get :: "'a list \<Rightarrow> int \<Rightarrow> 'a option" where
  "array_get xs i = (if 0 \<le> i \<and> i < int (length xs) then Some (xs ! nat i) else None)"

text \<open>
  A \<^verbatim>\<open>Map\<close> is an association list in insertion order with distinct keys:
  \<^verbatim>\<open>set\<close> overwrites an existing key in place and appends a new one.
\<close>

type_synonym ('k, 'v) js_map = "('k \<times> 'v) list"

definition Map_has :: "('k, 'v) js_map \<Rightarrow> 'k \<Rightarrow> bool" where
  "Map_has m k = (k \<in> set (map fst m))"

definition Map_get :: "('k, 'v) js_map \<Rightarrow> 'k \<Rightarrow> 'v option" where
  "Map_get m k = map_of m k"

primrec Map_set :: "('k, 'v) js_map \<Rightarrow> 'k \<Rightarrow> 'v \<Rightarrow> ('k, 'v) js_map" where
  "Map_set [] k v = [(k, v)]"
| "Map_set (p # ps) k v = (if fst p = k then (k, v) # ps else p # Map_set ps k v)"

definition Map_delete :: "('k, 'v) js_map \<Rightarrow> 'k \<Rightarrow> ('k, 'v) js_map" where
  "Map_delete m k = filter (\<lambda>p. fst p \<noteq> k) m"

definition Map_size :: "('k, 'v) js_map \<Rightarrow> nat" where
  "Map_size m = length m"

section \<open>Operations and the state of \<^verbatim>\<open>DrawingStateManager\<close>\<close>

text \<open>
  An operation object. The server reads \<^verbatim>\<open>id\<close>, \<^verbatim>\<open>userId\<close>, \<^verbatim>\<open>type\<close> and
  \<^verbatim>\<open>timestamp\<close>; the drawing payload (\<^verbatim>\<open>path\<close>) is carried along unread, so its
  type is a parameter. The synthetic clear operation has no payload.
\<close>

record 'p operation =
  op_id :: jsval
  op_type :: jsval
  userId :: jsval
  timestamp :: jsval
  path :: "'p option"

text \<open>
  What a caller may pass to \<^verbatim>\<open>addOperation\<close>: an object, or a value that is
  not an object (\<^verbatim>\<open>undefined\<close>, \<^verbatim>\<open>null\<close>, a boolean, a number, a string).
\<close>

datatype 'p argument = Primitive jsval | Object "'p operation"

fun arg_truthy :: "'p argument \<Rightarrow> bool" where
  "arg_truthy (Primitive v) = truthy v"
| "arg_truthy (Object r) = True"

text \<open>Property reads on the argument; a primitive has none of these properties.\<close>

fun prop_id :: "'p argument \<Rightarrow> jsval" where
  "prop_id (Primitive v) = JUndefined"
| "prop_id (Object r) = op_id r"

fun prop_userId :: "'p argument \<Rightarrow> jsval" where
  "prop_userId (Primitive v) = JUndefined"
| "prop_userId (Object r) = userId r"

fun prop_type :: "'p argument \<Rightarrow> jsval" where
  "prop_type (Primitive v) = JUndefined"
| "prop_type (Object r) = op_type r"

record 'p state =
  operations :: "'p operation list"
  maxOperations :: int
  operationTimestamps :: "(jsval, jsval) js_map"
  currentStateIndex :: int
  userOperations :: "(jsval, 'p operation list) js_map"

definition constructor :: "'p state" where
  "constructor =
     \<lparr> operations = [],
       maxOperations = 500,
       operationTimestamps = [],
       currentStateIndex = - 1,
       userOperations = [] \<rparr>"

subsection \<open>Reading the log\<close>

definition getActiveOperations :: "'p state \<Rightarrow> 'p operation list" where
  "getActiveOperations s = array_slice (operations s) 0 (currentStateIndex s + 1)"

record stats =
  totalOperations :: nat
  currentIndex :: int
  activeUsers :: nat
  canUndo :: bool
  canRedo :: bool

definition getStats :: "'p state \<Rightarrow> stats" where
  "getStats s =
     \<lparr> totalOperations = length (operations s),
       currentIndex = currentStateIndex s,
       activeUsers = Map_size (userOperations s),
       canUndo = (currentStateIndex s \<ge> 0),
       canRedo = (currentStateIndex s < int (length (operations s)) - 1) \<rparr>"

subsection \<open>Conflict classification\<close>

text \<open>
  \<^verbatim>\<open>Math.abs(a - b) < timeWindow\<close>: both operands are converted by ToNumber,
  the difference of two finite doubles is rounded to a double, and a
  comparison with \<open>NaN\<close> or with an infinite magnitude is false.
\<close>

definition within_window :: "jsval \<Rightarrow> jsval \<Rightarrow> int \<Rightarrow> bool" where
  "within_window a b timeWindow =
     (case (to_number a, to_number b) of
        (Finite x, Finite y) \<Rightarrow>
          (case round_double (x - y) of
             Finite d \<Rightarrow> \<bar>d\<bar> < of_int timeWindow
           | _ \<Rightarrow> False)
      | _ \<Rightarrow> False)"

definition detectConflict :: "'p state \<Rightarrow> 'p operation \<Rightarrow> 'p operation option" where
  "detectConflict s newOperation =
     (let timeWindow = 100;
          recentOps = filter (\<lambda>op. within_window (timestamp op) (timestamp newOperation) timeWindow
                                   \<and> userId op \<noteq> userId newOperation)
                             (operations s)
      in if length recentOps > 0 then Some (last recentOps) else None)"

text \<open>
  \<^verbatim>\<open>resolveConflict\<close> compares the two timestamps only to choose which of two
  messages it writes to the console; each message is a template literal over
  the two ids, and on primitive ids and timestamps neither the comparison nor
  the template literal can raise. Both branches then reach the same
  \<^verbatim>\<open>return newOperation\<close>. Console output is not part of the state.
\<close>

definition resolveConflict :: "'p operation \<Rightarrow> 'p operation \<Rightarrow> 'p operation" where
  "resolveConflict newOperation conflictingOperation = newOperation"

subsection \<open>\<^verbatim>\<open>addOperation\<close>\<close>

text \<open>Lines 22-24: a falsy timestamp is replaced by the clock reading \<open>now\<close>.\<close>

definition assign_timestamp :: "int \<Rightarrow> 'p operation \<Rightarrow> 'p operation" where
  "assign_timestamp now operation =
     (if \<not> truthy (timestamp operation) then operation\<lparr>timestamp := JNum now\<rparr> else operation)"

text \<open>Lines 32-34: drop the redo branch.\<close>

definition truncate_redo :: "'p state \<Rightarrow> 'p state" where
  "truncate_redo s =
     (if currentStateIndex s < int (length (operations s)) - 1
      then s\<lparr>operations := array_slice (operations s) 0 (currentStateIndex s + 1)\<rparr>
      else s)"

text \<open>
  Lines 40-43: the per-user index. After the \<^verbatim>\<open>has\<close>/\<^verbatim>\<open>set\<close> step the key is
  present, so \<^verbatim>\<open>get\<close> finds the array that \<^verbatim>\<open>push\<close> extends in place.
\<close>

definition record_user_operation ::
  "(jsval, 'p operation list) js_map \<Rightarrow> 'p operation \<Rightarrow> (jsval, 'p operation list) js_map" where
  "record_user_operation m operation =
     (let m1 = (if \<not> Map_has m (userId operation) then Map_set m (userId operation) [] else m)
      in case Map_get m1 (userId operation) of
           Some ops \<Rightarrow> Map_set m1 (userId operation) (ops @ [operation])
         | None \<Rightarrow> m1)"

text \<open>Lines 36-43: push, advance the cursor, record timestamp and user.\<close>

definition push_operation :: "'p operation \<Rightarrow> 'p state \<Rightarrow> 'p state" where
  "push_operation operation s =
     s\<lparr> operations := operations s @ [operation],
        currentStateIndex := currentStateIndex s + 1,
        operationTimestamps := Map_set (operationTimestamps s) (op_id operation) (timestamp operation),
        userOperations := record_user_operation (userOperations s) operation \<rparr>"

text \<open>
  Lines 45-49: retention. The block runs right after a push, so the array is
  not empty and \<^verbatim>\<open>shift()\<close> returns its first element.
\<close>

definition evict_oldest :: "'p state \<Rightarrow> 'p state" where
  "evict_oldest s =
     (if int (length (operations s)) > maxOperations s
      then (let removed = hd (operations s)
            in s\<lparr> operations := tl (operations s),
                  currentStateIndex := currentStateIndex s - 1,
                  operationTimestamps := Map_delete (operationTimestamps s) (op_id removed) \<rparr>)
      else s)"

text \<open>
  \<^verbatim>\<open>addOperation(operation)\<close> returns its boolean together with the new
  state; \<open>now\<close> is what \<^verbatim>\<open>Date.now()\<close> reads. The guard of lines 12-20 reads the
  properties of the argument in the order of the source. A primitive argument
  never passes it (it is falsy or has no \<^verbatim>\<open>id\<close>), so the \<open>Primitive\<close> branch
  behind the guard is never taken.
\<close>

definition addOperation :: "int \<Rightarrow> 'p argument \<Rightarrow> 'p state \<Rightarrow> bool \<times> 'p state" where
  "addOperation now a s =
     (if \<not> arg_truthy a \<or> prop_id a = JUndefined
           \<or> \<not> truthy (prop_userId a) \<or> \<not> truthy (prop_type a)
      then (False, s)
      else
        case a of
          Primitive v \<Rightarrow> (False, s)
        | Object operation \<Rightarrow>
            let operation1 = assign_timestamp now operation;
                conflict = detectConflict s operation1;
                operation2 = (case conflict of
                                Some conflicting \<Rightarrow> resolveConflict operation1 conflicting
                              | None \<Rightarrow> operation1)
            in (True, evict_oldest (push_operation operation2 (truncate_redo s))))"

subsection \<open>Global undo and redo, clear\<close>

datatype 'p history_result =
    Failure
  | Success (result_operation: "'p operation option") (remainingOperations: "'p operation list")

fun success :: "'p history_result \<Rightarrow> bool" where
  "success Failure = False"
| "success (Success op remaining) = True"

definition globalUndo :: "'p state \<Rightarrow> 'p history_result \<times> 'p state" where
  "globalUndo s =
     (if currentStateIndex s \<ge> 0
      then (let undoneOperation = array_get (operations s) (currentStateIndex s);
                s' = s\<lparr>currentStateIndex := currentStateIndex s - 1\<rparr>
            in (Success undoneOperation (getActiveOperations s'), s'))
      else (Failure, s))"

definition globalRedo :: "'p state \<Rightarrow> 'p history_result \<times> 'p state" where
  "globalRedo s =
     (if currentStateIndex s < int (length (operations s)) - 1
      then (let s' = s\<lparr>currentStateIndex := currentStateIndex s + 1\<rparr>;
                redoneOperation = array_get (operations s') (currentStateIndex s')
            in (Success redoneOperation (getActiveOperations s'), s'))
      else (Failure, s))"

text \<open>
  \<^verbatim>\<open>clear()\<close> reads the clock twice: \<open>now1\<close> for the identifier, \<open>now2\<close> for the
  timestamp.
\<close>

definition clear :: "int \<Rightarrow> int \<Rightarrow> 'p state \<Rightarrow> 'p operation \<times> 'p state" where
  "clear now1 now2 s =
     (let clearOperation =
            \<lparr> op_id = JStr (''clear_'' @ string_of_int now1),
              op_type = JStr ''clear'',
              userId = JStr ''system'',
              timestamp = JNum now2,
              path = None \<rparr>
      in (clearOperation,
          s\<lparr> operations := [clearOperation],
             currentStateIndex := 0,
             operationTimestamps := [],
             userOperations := [] \<rparr>))"

section \<open>Call sequences\<close>

text \<open>
  The server handles one message at a time, so a run of the manager is a
  sequence of method calls applied to the state the constructor builds. Each
  call carries the clock readings it makes.
\<close>

datatype 'p call =
    AddOperation int "'p argument"
  | GlobalUndo
  | GlobalRedo
  | Clear int int

fun call_step :: "'p call \<Rightarrow> 'p state \<Rightarrow> 'p state" where
  "call_step (AddOperation now a) s = snd (addOperation now a s)"
| "call_step GlobalUndo s = snd (globalUndo s)"
| "call_step GlobalRedo s = snd (globalRedo s)"
| "call_step (Clear now1 now2) s = snd (clear now1 now2 s)"

primrec run :: "'p call list \<Rightarrow> 'p state \<Rightarrow> 'p state" where
  "run [] s = s"
| "run (c # cs) s = run cs (call_step c s)"

text \<open>The bounds of the log: cursor range and retention.\<close>

definition log_inv :: "'p state \<Rightarrow> bool" where
  "log_inv s =
     (maxOperations s = 500
      \<and> - 1 \<le> currentStateIndex s
      \<and> currentStateIndex s \<le> int (length (operations s)) - 1
      \<and> length (operations s) \<le> 500)"

text \<open>
  The userIds of the operations that \<^verbatim>\<open>addOperation\<close> accepted (returned true
  for) during a call sequence, in order of acceptance: \<open>accepted_ever\<close> over
  the whole sequence, \<open>accepted_since_clear\<close> from the most recent \<^verbatim>\<open>clear()\<close>
  on. The first argument accumulates the userIds seen so far.
\<close>

fun accepted_ever :: "jsval list \<Rightarrow> 'p call list \<Rightarrow> 'p state \<Rightarrow> jsval list" where
  "accepted_ever acc [] s = acc"
| "accepted_ever acc (AddOperation now a # cs) s =
     accepted_ever (if fst (addOperation now a s) then acc @ [prop_userId a] else acc) cs
       (call_step (AddOperation now a) s)"
| "accepted_ever acc (c # cs) s = accepted_ever acc cs (call_step c s)"

fun accepted_since_clear :: "jsval list \<Rightarrow> 'p call list \<Rightarrow> 'p state \<Rightarrow> jsval list" where
  "accepted_since_clear acc [] s = acc"
| "accepted_since_clear acc (AddOperation now a # cs) s =
     accepted_since_clear (if fst (addOperation now a s) then acc @ [prop_userId a] else acc) cs
       (call_step (AddOperation now a) s)"
| "accepted_since_clear acc (Clear now1 now2 # cs) s =
     accepted_since_clear [] cs (call_step (Clear now1 now2) s)"
| "accepted_since_clear acc (GlobalUndo # cs) s = accepted_since_clear acc cs (call_step GlobalUndo s)"
| "accepted_since_clear acc (GlobalRedo # cs) s = accepted_since_clear acc cs (call_step GlobalRedo s)"

fun is_clear :: "'p call \<Rightarrow> bool" where
  "is_clear (Clear now1 now2) = True"
| "is_clear c = False"

text \<open>
  The keys of the per-user index are pairwise distinct and are exactly the
  userIds collected in \<open>acc\<close>.
\<close>

definition users_inv :: "jsval list \<Rightarrow> 'p state \<Rightarrow> bool" where
  "users_inv acc s =
     (distinct (map fst (userOperations s)) \<and> fst ` set (userOperations s) = set acc)"

section \<open>Properties\<close>

subsection \<open>Auxiliary facts\<close>







lemma array_slice_prefix:
  "- 1 \<le> c \<Longrightarrow> array_slice xs 0 (c + 1) = take (nat (c + 1)) xs"
  by (auto simp: array_slice_def relative_index_def min_def)

lemma conflict_stage_neutral:
  "(case detectConflict s r of Some conflicting \<Rightarrow> resolveConflict r conflicting | None \<Rightarrow> r) = r"
  by (simp add: resolveConflict_def split: option.split)

lemma addOperation_Primitive: "addOperation now (Primitive v) s = (False, s)"
  by (simp add: addOperation_def)

lemma addOperation_Object:
  "addOperation now (Object r) s =
     (if op_id r = JUndefined \<or> \<not> truthy (userId r) \<or> \<not> truthy (op_type r)
      then (False, s)
      else (True, evict_oldest (push_operation (assign_timestamp now r) (truncate_redo s))))"
  by (simp add: addOperation_def Let_def conflict_stage_neutral)

lemmas addOperation_simps = addOperation_Primitive addOperation_Object

lemma addOperation_valid:
  assumes "op_id r \<noteq> JUndefined" "truthy (userId r)" "truthy (op_type r)"
  shows "addOperation now (Object r) s =
           (True, evict_oldest (push_operation (assign_timestamp now r) (truncate_redo s)))"
  using assms by (simp add: addOperation_simps Let_def conflict_stage_neutral)

lemma truncate_redo_inv:
  "log_inv s \<Longrightarrow> log_inv (truncate_redo s)"
  by (auto simp: log_inv_def truncate_redo_def array_slice_prefix)

lemma push_evict_inv:
  assumes "log_inv s"
  shows "log_inv (evict_oldest (push_operation r s))"
  using assms by (auto simp: log_inv_def evict_oldest_def push_operation_def Let_def)

lemma addOperation_inv: "log_inv s \<Longrightarrow> log_inv (snd (addOperation now a s))"
  by (cases a) (simp_all add: addOperation_simps Let_def truncate_redo_inv push_evict_inv)

lemma globalUndo_inv: "log_inv s \<Longrightarrow> log_inv (snd (globalUndo s))"
  by (auto simp: log_inv_def globalUndo_def Let_def)

lemma globalRedo_inv: "log_inv s \<Longrightarrow> log_inv (snd (globalRedo s))"
  by (auto simp: log_inv_def globalRedo_def Let_def)

lemma clear_inv: "log_inv s \<Longrightarrow> log_inv (snd (clear n1 n2 s))"
  by (auto simp: log_inv_def clear_def Let_def)

lemma call_step_inv: "log_inv s \<Longrightarrow> log_inv (call_step c s)"
  by (cases c) (simp_all add: addOperation_inv globalUndo_inv globalRedo_inv clear_inv)

lemma run_inv: "log_inv s \<Longrightarrow> log_inv (run cs s)"
  by (induction cs arbitrary: s) (simp_all add: call_step_inv)

lemma constructor_inv: "log_inv constructor"
  by (simp add: log_inv_def constructor_def)

lemma eviction_only_when_full:
  assumes "log_inv s"
    and "int (length (operations (push_operation r (truncate_redo s)))) > maxOperations (push_operation r (truncate_redo s))"
  shows "length (operations s) = 500 \<and> currentStateIndex s = 499 \<and> truncate_redo s = s"
  using assms
  by (auto simp: log_inv_def push_operation_def truncate_redo_def array_slice_prefix min_def
      split: if_splits)

lemma push_evict_last:
  assumes "1 \<le> maxOperations s"
  shows "operations (evict_oldest (push_operation r s)) \<noteq> []
       \<and> last (operations (evict_oldest (push_operation r s))) = r"
proof (cases "operations s")
  case Nil
  then show ?thesis using assms by (simp add: evict_oldest_def push_operation_def)
next
  case (Cons x xs)
  then show ?thesis by (simp add: evict_oldest_def push_operation_def Let_def)
qed

lemma truncate_redo_max: "maxOperations (truncate_redo s) = maxOperations s"
  by (simp add: truncate_redo_def)

lemma adds_keep_cursor_last:
  "currentStateIndex s = int (length (operations s)) - 1 \<Longrightarrow>
   currentStateIndex (snd (addOperation now a s)) =
     int (length (operations (snd (addOperation now a s)))) - 1"
  by (cases a)
     (auto simp: addOperation_simps Let_def evict_oldest_def push_operation_def truncate_redo_def)

lemma run_adds_cursor_last:
  "currentStateIndex s = int (length (operations s)) - 1 \<Longrightarrow>
   currentStateIndex (run (map (\<lambda>(now, a). AddOperation now a) calls) s) =
     int (length (operations (run (map (\<lambda>(now, a). AddOperation now a) calls) s))) - 1"
  by (induction calls arbitrary: s) (auto simp: adds_keep_cursor_last)

lemma undo_redo_at_end:
  assumes "currentStateIndex s = int (length (operations s)) - 1"
  shows "snd (globalRedo (snd (globalUndo s))) = s"
  using assms by (auto simp: globalUndo_def globalRedo_def Let_def)

lemma Map_set_keys: "fst ` set (Map_set m k v) = insert k (fst ` set m)"
  by (induction m) auto

lemma Map_set_distinct: "distinct (map fst m) \<Longrightarrow> distinct (map fst (Map_set m k v))"
  by (induction m) (auto simp: Map_set_keys)

lemma Map_get_present: "k \<in> fst ` set m \<Longrightarrow> \<exists>v. Map_get m k = Some v"
  by (induction m) (auto simp: Map_get_def)

lemma record_user_operation_keys:
  "fst ` set (record_user_operation m r) = insert (userId r) (fst ` set m)"
proof -
  let ?m1 = "if \<not> Map_has m (userId r) then Map_set m (userId r) [] else m"
  have k1: "fst ` set ?m1 = insert (userId r) (fst ` set m)"
    by (auto simp: Map_has_def Map_set_keys)
  then obtain ops where "Map_get ?m1 (userId r) = Some ops"
    using Map_get_present [of "userId r" ?m1] by blast
  then show ?thesis
    using k1 by (simp add: record_user_operation_def Let_def Map_set_keys)
qed

lemma record_user_operation_distinct:
  assumes "distinct (map fst m)"
  shows "distinct (map fst (record_user_operation m r))"
proof -
  let ?m1 = "if \<not> Map_has m (userId r) then Map_set m (userId r) [] else m"
  have d1: "distinct (map fst ?m1)"
    using assms by (simp add: Map_set_distinct)
  show ?thesis
    unfolding record_user_operation_def Let_def
    using d1 by (auto simp: Map_set_distinct split: option.split)
qed

lemma userId_assign_timestamp: "userId (assign_timestamp now r) = userId r"
  by (simp add: assign_timestamp_def)

lemma addOperation_users:
  "userOperations (snd (addOperation now a s)) =
     (if fst (addOperation now a s)
      then record_user_operation (userOperations s)
             (case a of Object r \<Rightarrow> assign_timestamp now r)
      else userOperations s)"
  by (cases a)
     (simp_all add: addOperation_simps Let_def conflict_stage_neutral evict_oldest_def
        push_operation_def truncate_redo_def)

lemma addOperation_accept_object:
  "fst (addOperation now a s) \<Longrightarrow> \<exists>r. a = Object r"
  by (cases a) (simp_all add: addOperation_simps)

lemma addOperation_users_inv:
  assumes "users_inv acc s"
  shows "users_inv (if fst (addOperation now a s) then acc @ [prop_userId a] else acc)
           (snd (addOperation now a s))"
proof (cases "fst (addOperation now a s)")
  case True
  then obtain r where a: "a = Object r"
    using addOperation_accept_object by blast
  have "userOperations (snd (addOperation now a s)) =
      record_user_operation (userOperations s) (assign_timestamp now r)"
    using True by (simp add: addOperation_users a)
  then show ?thesis
    using assms True
    by (simp add: users_inv_def record_user_operation_keys record_user_operation_distinct
        userId_assign_timestamp a)
next
  case False
  then show ?thesis
    using assms by (simp add: users_inv_def addOperation_users)
qed

lemma globalUndo_users: "userOperations (snd (globalUndo s)) = userOperations s"
  by (simp add: globalUndo_def Let_def)

lemma globalRedo_users: "userOperations (snd (globalRedo s)) = userOperations s"
  by (simp add: globalRedo_def Let_def)

lemma clear_users: "userOperations (snd (clear n1 n2 s)) = []"
  by (simp add: clear_def Let_def)

lemma users_inv_size: "users_inv acc s \<Longrightarrow> Map_size (userOperations s) = card (set acc)"
  unfolding users_inv_def Map_size_def
  by (metis distinct_card length_map set_map)

lemma active_users_run:
  "users_inv acc s \<Longrightarrow>
   Map_size (userOperations (run cs s)) = card (set (accepted_since_clear acc cs s))"
proof (induction acc cs s rule: accepted_since_clear.induct)
  case (1 acc s)
  then show ?case by (simp add: users_inv_size)
next
  case (2 acc now a cs s)
  then show ?case using addOperation_users_inv [of acc s now a] by simp
next
  case (3 acc now1 now2 cs s)
  have "users_inv [] (snd (clear now1 now2 s))"
    by (simp add: users_inv_def clear_users)
  with 3 show ?case by simp
next
  case (4 acc cs s)
  then show ?case by (simp add: users_inv_def globalUndo_users)
next
  case (5 acc cs s)
  then show ?case by (simp add: users_inv_def globalRedo_users)
qed

lemma no_clear_same:
  "list_all (\<lambda>c. \<not> is_clear c) cs \<Longrightarrow> accepted_since_clear acc cs s = accepted_ever acc cs s"
  by (induction acc cs s rule: accepted_ever.induct) simp_all

subsection \<open>Appending after an undo\<close>

text \<open>
  Claim C1. In a state whose cursor is at least \<open>-1\<close> and below the last index,
  and whose log is within the retention bound, \<^verbatim>\<open>addOperation\<close> of an operation
  that passes validation returns true, leaves exactly the entries up to the
  cursor followed by the new operation, puts the cursor on the new last index,
  and an immediately following \<^verbatim>\<open>globalRedo\<close> fails without changing the state.
\<close>

theorem addOperation_truncates_redo_branch:
  assumes "op_id r \<noteq> JUndefined" and "truthy (userId r)" and "truthy (op_type r)"
    and "- 1 \<le> currentStateIndex s"
    and "currentStateIndex s < int (length (operations s)) - 1"
    and "int (length (operations s)) \<le> maxOperations s"
  shows "fst (addOperation now (Object r) s) = True
     \<and> operations (snd (addOperation now (Object r) s)) =
           take (nat (currentStateIndex s + 1)) (operations s) @ [assign_timestamp now r]
     \<and> currentStateIndex (snd (addOperation now (Object r) s)) =
           int (length (operations (snd (addOperation now (Object r) s)))) - 1
     \<and> globalRedo (snd (addOperation now (Object r) s)) =
           (Failure, snd (addOperation now (Object r) s))"
proof -
  let ?t = "push_operation (assign_timestamp now r) (truncate_redo s)"
  have ops: "operations ?t = take (nat (currentStateIndex s + 1)) (operations s) @ [assign_timestamp now r]"
    using assms(4,5) by (simp add: push_operation_def truncate_redo_def array_slice_prefix)
  have idx: "currentStateIndex ?t = currentStateIndex s + 1"
    by (simp add: push_operation_def truncate_redo_def)
  have mx: "maxOperations ?t = maxOperations s"
    by (simp add: push_operation_def truncate_redo_def)
  have len: "int (length (operations ?t)) = currentStateIndex s + 2"
    using assms(4,5) by (simp add: ops min_def)
  have keep: "evict_oldest ?t = ?t"
    using assms(5,6) by (simp add: evict_oldest_def len mx)
  have res: "addOperation now (Object r) s = (True, ?t)"
    using addOperation_valid [OF assms(1-3)] keep by simp
  have redo: "globalRedo ?t = (Failure, ?t)"
    by (simp add: globalRedo_def len idx)
  show ?thesis
    unfolding res fst_conv snd_conv using ops idx len redo by simp
qed

theorem addOperation_truncates_redo_branch_witness:
  "(let X = \<lparr>op_id = JNum 1, op_type = JStr ''draw'', userId = JStr ''A'', timestamp = JNum 1000, path = Some (1::int)\<rparr>;
        Y = \<lparr>op_id = JNum 1, op_type = JStr ''draw'', userId = JStr ''B'', timestamp = JNum 1050, path = Some 2\<rparr>;
        Z = \<lparr>op_id = JNum 2, op_type = JStr ''draw'', userId = JStr ''A'', timestamp = JNum 1200, path = Some 3\<rparr>;
        s = run [AddOperation 1001 (Object X), AddOperation 1051 (Object Y), GlobalUndo] constructor
    in currentStateIndex s = 0 \<and> operations s = [X, Y]
       \<and> operations (snd (addOperation 1201 (Object Z) s)) = [X, Z]
       \<and> currentStateIndex (snd (addOperation 1201 (Object Z) s)) = 1
       \<and> fst (globalRedo (snd (addOperation 1201 (Object Z) s))) = Failure)"
proof -
  let ?X = "\<lparr>op_id = JNum 1, op_type = JStr ''draw'', userId = JStr ''A'', timestamp = JNum 1000, path = Some (1::int)\<rparr>"
  let ?Y = "\<lparr>op_id = JNum 1, op_type = JStr ''draw'', userId = JStr ''B'', timestamp = JNum 1050, path = Some (2::int)\<rparr>"
  let ?Z = "\<lparr>op_id = JNum 2, op_type = JStr ''draw'', userId = JStr ''A'', timestamp = JNum 1200, path = Some (3::int)\<rparr>"
  let ?s = "run [AddOperation 1001 (Object ?X), AddOperation 1051 (Object ?Y), GlobalUndo] constructor"
  have s: "?s = \<lparr>operations = [?X, ?Y], maxOperations = 500,
                  operationTimestamps = [(JNum 1, JNum 1050)], currentStateIndex = 0,
                  userOperations = [(JStr ''A'', [?X]), (JStr ''B'', [?Y])]\<rparr>"
    by (simp add: addOperation_simps constructor_def Let_def conflict_stage_neutral assign_timestamp_def
        truncate_redo_def push_operation_def evict_oldest_def record_user_operation_def
        Map_has_def Map_get_def globalUndo_def)
  show ?thesis
    using addOperation_truncates_redo_branch [of ?Z ?s 1201]
    unfolding Let_def s by (simp add: assign_timestamp_def)
qed

subsection \<open>Cursor bounds and retention\<close>

text \<open>
  Claim C2. After every sequence of \<^verbatim>\<open>addOperation\<close>, \<^verbatim>\<open>globalUndo\<close>,
  \<^verbatim>\<open>globalRedo\<close> and \<^verbatim>\<open>clear\<close> calls on a fresh manager the cursor lies between
  \<open>-1\<close> and the last index and the log holds at most 500 entries. When, in a
  state within these bounds, an accepted operation makes the retention block
  fire, the oldest entry is removed, the cursor is one less than after the
  push and still reads the operation just appended, and the bounds hold again.
\<close>

theorem cursor_bounds_and_retention:
  "- 1 \<le> currentStateIndex (run cs constructor)
   \<and> currentStateIndex (run cs constructor) \<le> int (length (operations (run cs constructor))) - 1
   \<and> length (operations (run cs constructor)) \<le> 500
   \<and> (op_id r \<noteq> JUndefined \<and> truthy (userId r) \<and> truthy (op_type r) \<and> log_inv s
        \<and> int (length (operations (push_operation (assign_timestamp now r) (truncate_redo s))))
             > maxOperations s
      \<longrightarrow> operations (snd (addOperation now (Object r) s)) = tl (operations s) @ [assign_timestamp now r]
        \<and> currentStateIndex (snd (addOperation now (Object r) s)) =
             currentStateIndex (push_operation (assign_timestamp now r) (truncate_redo s)) - 1
        \<and> array_get (operations (push_operation (assign_timestamp now r) (truncate_redo s)))
             (currentStateIndex (push_operation (assign_timestamp now r) (truncate_redo s))) =
             Some (assign_timestamp now r)
        \<and> array_get (operations (snd (addOperation now (Object r) s)))
             (currentStateIndex (snd (addOperation now (Object r) s))) = Some (assign_timestamp now r)
        \<and> getActiveOperations (snd (addOperation now (Object r) s)) =
             tl (getActiveOperations s) @ [assign_timestamp now r]
        \<and> log_inv (snd (addOperation now (Object r) s)))"
proof -
  have reach: "log_inv (run cs constructor)"
    by (rule run_inv [OF constructor_inv])
  have evict: "operations (snd (addOperation now (Object r) s)) = tl (operations s) @ [assign_timestamp now r]
        \<and> currentStateIndex (snd (addOperation now (Object r) s)) =
             currentStateIndex (push_operation (assign_timestamp now r) (truncate_redo s)) - 1
        \<and> array_get (operations (push_operation (assign_timestamp now r) (truncate_redo s)))
             (currentStateIndex (push_operation (assign_timestamp now r) (truncate_redo s))) =
             Some (assign_timestamp now r)
        \<and> array_get (operations (snd (addOperation now (Object r) s)))
             (currentStateIndex (snd (addOperation now (Object r) s))) = Some (assign_timestamp now r)
        \<and> getActiveOperations (snd (addOperation now (Object r) s)) =
             tl (getActiveOperations s) @ [assign_timestamp now r]
        \<and> log_inv (snd (addOperation now (Object r) s))"
    if valid: "op_id r \<noteq> JUndefined" "truthy (userId r)" "truthy (op_type r)"
      and inv: "log_inv s"
      and fires: "int (length (operations (push_operation (assign_timestamp now r) (truncate_redo s)))) > maxOperations s"
  proof -
    let ?r = "assign_timestamp now r"
    let ?t = "push_operation ?r (truncate_redo s)"
    have mx: "maxOperations ?t = maxOperations s"
      by (simp add: push_operation_def truncate_redo_def)
    from eviction_only_when_full [OF inv, of ?r] fires mx
    have full: "length (operations s) = 500" "currentStateIndex s = 499" "truncate_redo s = s"
      by simp_all
    have m500: "maxOperations s = 500" using inv by (simp add: log_inv_def)
    have ne: "operations s \<noteq> []" using full(1) by auto
    have res: "snd (addOperation now (Object r) s) = evict_oldest ?t"
      unfolding addOperation_valid [OF valid] by simp
    have t_ops: "operations ?t = operations s @ [?r]"
      by (simp add: full(3) push_operation_def)
    have t_idx: "currentStateIndex ?t = 500"
      by (simp add: full push_operation_def)
    have e_ops: "operations (evict_oldest ?t) = tl (operations s) @ [?r]"
      using ne by (simp add: evict_oldest_def t_ops mx m500 full(1) Let_def)
    have e_idx: "currentStateIndex (evict_oldest ?t) = 499"
      by (simp add: evict_oldest_def t_ops t_idx mx m500 full(1) Let_def)
    have g1: "array_get (operations ?t) (currentStateIndex ?t) = Some ?r"
      by (simp add: array_get_def t_ops t_idx full(1) nth_append)
    have g2: "array_get (operations (evict_oldest ?t)) (currentStateIndex (evict_oldest ?t)) = Some ?r"
      by (simp add: array_get_def e_ops e_idx full(1) nth_append)
    have a0: "getActiveOperations s = operations s"
      by (simp add: getActiveOperations_def array_slice_def relative_index_def full)
    have a1: "getActiveOperations (evict_oldest ?t) = tl (operations s) @ [?r]"
      by (simp add: getActiveOperations_def array_slice_def relative_index_def e_ops e_idx full(1))
    have inv': "log_inv (snd (addOperation now (Object r) s))"
      by (rule addOperation_inv [OF inv])
    show ?thesis
      unfolding res using e_ops e_idx t_idx g1 g2 a0 a1 inv' [unfolded res] by simp
  qed
  have bounds: "- 1 \<le> currentStateIndex (run cs constructor)
      \<and> currentStateIndex (run cs constructor) \<le> int (length (operations (run cs constructor))) - 1
      \<and> length (operations (run cs constructor)) \<le> 500"
    using reach by (simp add: log_inv_def)
  show ?thesis
    using bounds evict by blast
qed

theorem cursor_bounds_and_retention_witness:
  "(let X = \<lparr>op_id = JNum 1, op_type = JStr ''draw'', userId = JStr ''A'', timestamp = JNum 1000, path = Some (1::int)\<rparr>;
        Z = \<lparr>op_id = JNum 2, op_type = JStr ''draw'', userId = JStr ''B'', timestamp = JNum 5000, path = Some 2\<rparr>;
        cs = [AddOperation 1001 (Object X), GlobalUndo, GlobalUndo, GlobalRedo, Clear 7 8];
        s = \<lparr>operations = replicate 500 X, maxOperations = 500,
             operationTimestamps = [(JNum 1, JNum 1000)], currentStateIndex = 499,
             userOperations = [(JStr ''A'', replicate 500 X)]\<rparr>
    in - 1 \<le> currentStateIndex (run cs constructor)
       \<and> currentStateIndex (run cs constructor) \<le> int (length (operations (run cs constructor))) - 1
       \<and> length (operations (run cs constructor)) \<le> 500
       \<and> op_id Z \<noteq> JUndefined \<and> truthy (userId Z) \<and> truthy (op_type Z) \<and> log_inv s
       \<and> int (length (operations (push_operation (assign_timestamp 5001 Z) (truncate_redo s)))) > maxOperations s
       \<and> operations (snd (addOperation 5001 (Object Z) s)) = replicate 499 X @ [Z]
       \<and> currentStateIndex (push_operation (assign_timestamp 5001 Z) (truncate_redo s)) = 500
       \<and> currentStateIndex (snd (addOperation 5001 (Object Z) s)) = 499
       \<and> array_get (operations (snd (addOperation 5001 (Object Z) s))) 499 = Some Z
       \<and> getActiveOperations (snd (addOperation 5001 (Object Z) s)) = replicate 499 X @ [Z])"
proof -
  let ?X = "\<lparr>op_id = JNum 1, op_type = JStr ''draw'', userId = JStr ''A'', timestamp = JNum 1000, path = Some (1::int)\<rparr>"
  let ?Z = "\<lparr>op_id = JNum 2, op_type = JStr ''draw'', userId = JStr ''B'', timestamp = JNum 5000, path = Some (2::int)\<rparr>"
  let ?s = "\<lparr>operations = replicate 500 ?X, maxOperations = 500,
             operationTimestamps = [(JNum 1, JNum 1000)], currentStateIndex = 499,
             userOperations = [(JStr ''A'', replicate 500 ?X)]\<rparr>"
  let ?cs = "[AddOperation 1001 (Object ?X), GlobalUndo, GlobalUndo, GlobalRedo, Clear 7 8]"
  have z: "assign_timestamp 5001 ?Z = ?Z"
    by (simp add: assign_timestamp_def)
  have hyp: "op_id ?Z \<noteq> JUndefined \<and> truthy (userId ?Z) \<and> truthy (op_type ?Z) \<and> log_inv ?s
       \<and> int (length (operations (push_operation ?Z (truncate_redo ?s)))) > maxOperations ?s"
    by (simp add: log_inv_def push_operation_def truncate_redo_def)
  have tl500: "tl (replicate 500 ?X) = replicate 499 ?X"
    by simp
  have push_idx: "currentStateIndex (push_operation ?Z (truncate_redo ?s)) = 500"
    by (simp add: push_operation_def truncate_redo_def)
  have act: "getActiveOperations ?s = replicate 500 ?X"
    by (simp add: getActiveOperations_def array_slice_def relative_index_def)
  have sel: "operations ?s = replicate 500 ?X"
    by simp
  note T = cursor_bounds_and_retention [of ?cs ?Z ?s 5001, unfolded z]
  from T hyp have bounds: "- 1 \<le> currentStateIndex (run ?cs constructor)
       \<and> currentStateIndex (run ?cs constructor) \<le> int (length (operations (run ?cs constructor))) - 1
       \<and> length (operations (run ?cs constructor)) \<le> 500"
    by blast
  from T hyp have concl:
      "operations (snd (addOperation 5001 (Object ?Z) ?s)) = tl (operations ?s) @ [?Z]
       \<and> currentStateIndex (snd (addOperation 5001 (Object ?Z) ?s)) =
            currentStateIndex (push_operation ?Z (truncate_redo ?s)) - 1
       \<and> array_get (operations (snd (addOperation 5001 (Object ?Z) ?s)))
             (currentStateIndex (snd (addOperation 5001 (Object ?Z) ?s))) = Some ?Z
       \<and> getActiveOperations (snd (addOperation 5001 (Object ?Z) ?s)) =
             tl (getActiveOperations ?s) @ [?Z]"
    by blast
  have final: "operations (snd (addOperation 5001 (Object ?Z) ?s)) = replicate 499 ?X @ [?Z]
       \<and> currentStateIndex (snd (addOperation 5001 (Object ?Z) ?s)) = 499
       \<and> array_get (operations (snd (addOperation 5001 (Object ?Z) ?s))) 499 = Some ?Z
       \<and> getActiveOperations (snd (addOperation 5001 (Object ?Z) ?s)) = replicate 499 ?X @ [?Z]"
    using concl unfolding push_idx act sel tl500 by (simp add: array_get_def nth_append)
  show ?thesis
    unfolding Let_def z using bounds hyp push_idx final by blast
qed

subsection \<open>One shared timeline\<close>

text \<open>
  Claim C3. On a fresh manager, after \<^verbatim>\<open>addOperation\<close> of an accepted
  operation X and then of an accepted operation Y (whoever their users are),
  one \<^verbatim>\<open>globalUndo\<close>, which takes no user argument, succeeds, returns Y as
  the undone operation and leaves [X] as the active operations.
\<close>

theorem global_undo_regardless_of_author:
  assumes "op_id x \<noteq> JUndefined" and "truthy (userId x)" and "truthy (op_type x)"
    and "op_id y \<noteq> JUndefined" and "truthy (userId y)" and "truthy (op_type y)"
  shows "(let s1 = snd (addOperation now1 (Object x) constructor);
               s2 = snd (addOperation now2 (Object y) s1)
           in fst (addOperation now1 (Object x) constructor) = True
              \<and> fst (addOperation now2 (Object y) s1) = True
              \<and> getActiveOperations s2 = [assign_timestamp now1 x, assign_timestamp now2 y]
              \<and> fst (globalUndo s2) = Success (Some (assign_timestamp now2 y)) [assign_timestamp now1 x]
              \<and> getActiveOperations (snd (globalUndo s2)) = [assign_timestamp now1 x]
              \<and> currentStateIndex (snd (globalUndo s2)) = 0)"
proof -
  let ?x = "assign_timestamp now1 x" and ?y = "assign_timestamp now2 y"
  let ?s1 = "snd (addOperation now1 (Object x) constructor)"
  let ?s2 = "snd (addOperation now2 (Object y) ?s1)"
  have a1: "addOperation now1 (Object x) constructor =
      (True, evict_oldest (push_operation ?x (truncate_redo constructor)))"
    by (rule addOperation_valid [OF assms(1-3)])
  have s1_ops: "operations ?s1 = [?x]" and s1_idx: "currentStateIndex ?s1 = 0"
    and s1_max: "maxOperations ?s1 = 500"
    unfolding a1
    by (simp_all add: evict_oldest_def push_operation_def truncate_redo_def constructor_def)
  have a2: "addOperation now2 (Object y) ?s1 =
      (True, evict_oldest (push_operation ?y (truncate_redo ?s1)))"
    by (rule addOperation_valid [OF assms(4-6)])
  have t1: "truncate_redo ?s1 = ?s1"
    by (simp add: truncate_redo_def s1_ops s1_idx)
  have s2_ops: "operations ?s2 = [?x, ?y]" and s2_idx: "currentStateIndex ?s2 = 1"
    unfolding a2 t1
    by (simp_all add: evict_oldest_def push_operation_def s1_ops s1_idx s1_max)
  have undo: "globalUndo ?s2 = (Success (Some ?y) [?x], ?s2\<lparr>currentStateIndex := 0\<rparr>)"
    by (simp add: globalUndo_def s2_ops s2_idx array_get_def getActiveOperations_def
        array_slice_def relative_index_def Let_def)
  have act: "getActiveOperations (snd (globalUndo ?s2)) = [?x]"
    unfolding undo
    by (simp add: getActiveOperations_def array_slice_def relative_index_def s2_ops)
  have act2: "getActiveOperations ?s2 = [?x, ?y]"
    by (simp add: getActiveOperations_def array_slice_def relative_index_def s2_ops s2_idx)
  show ?thesis
    unfolding Let_def using a1 a2 undo act act2 by simp
qed

theorem global_undo_regardless_of_author_witness:
  "(let X = \<lparr>op_id = JNum 0, op_type = JStr ''draw'', userId = JStr ''A'', timestamp = JNum 1000, path = Some (1::int)\<rparr>;
        Y = \<lparr>op_id = JNum 0, op_type = JStr ''draw'', userId = JStr ''B'', timestamp = JUndefined, path = Some 2\<rparr>;
        s2 = snd (addOperation 1061 (Object Y) (snd (addOperation 1001 (Object X) constructor)))
    in op_id X \<noteq> JUndefined \<and> truthy (userId X) \<and> truthy (op_type X)
       \<and> op_id Y \<noteq> JUndefined \<and> truthy (userId Y) \<and> truthy (op_type Y)
       \<and> userId X \<noteq> userId Y
       \<and> fst (globalUndo s2) = Success (Some (Y\<lparr>timestamp := JNum 1061\<rparr>)) [X]
       \<and> getActiveOperations (snd (globalUndo s2)) = [X]
       \<and> currentStateIndex (snd (globalUndo s2)) = 0)"
  using global_undo_regardless_of_author
    [of "\<lparr>op_id = JNum 0, op_type = JStr ''draw'', userId = JStr ''A'', timestamp = JNum 1000, path = Some (1::int)\<rparr>"
        "\<lparr>op_id = JNum 0, op_type = JStr ''draw'', userId = JStr ''B'', timestamp = JUndefined, path = Some (2::int)\<rparr>"
        1001 1061]
  by (simp add: assign_timestamp_def Let_def)

text \<open>
  Claim C4. For a log built only by \<^verbatim>\<open>addOperation\<close> calls on a fresh manager,
  \<^verbatim>\<open>globalUndo\<close> followed by \<^verbatim>\<open>globalRedo\<close> restores the active operations and
  the cursor (indeed the whole state); both calls succeed or both fail, and
  when they succeed the redone operation is the undone one.
\<close>

theorem undo_redo_symmetry:
  "(let s = run (map (\<lambda>(now, a). AddOperation now a) calls) constructor;
        s1 = snd (globalUndo s);
        s2 = snd (globalRedo s1)
    in getActiveOperations s2 = getActiveOperations s
       \<and> currentStateIndex s2 = currentStateIndex s
       \<and> s2 = s
       \<and> success (fst (globalRedo s1)) = success (fst (globalUndo s))
       \<and> (success (fst (globalUndo s)) \<longrightarrow>
            result_operation (fst (globalRedo s1)) = result_operation (fst (globalUndo s))))"
proof -
  let ?s = "run (map (\<lambda>(now, a). AddOperation now a) calls) constructor"
  have last: "currentStateIndex ?s = int (length (operations ?s)) - 1"
    by (rule run_adds_cursor_last) (simp add: constructor_def)
  have same: "snd (globalRedo (snd (globalUndo ?s))) = ?s"
    by (rule undo_redo_at_end [OF last])
  have res: "success (fst (globalRedo (snd (globalUndo ?s)))) = success (fst (globalUndo ?s))"
    using last by (auto simp: globalUndo_def globalRedo_def Let_def)
  have ops: "success (fst (globalUndo ?s)) \<longrightarrow>
      result_operation (fst (globalRedo (snd (globalUndo ?s)))) = result_operation (fst (globalUndo ?s))"
    using last by (auto simp: globalUndo_def globalRedo_def Let_def)
  show ?thesis
    unfolding Let_def using same res ops by simp
qed

theorem undo_redo_symmetry_witness:
  "(let X = \<lparr>op_id = JNum 0, op_type = JStr ''draw'', userId = JStr ''A'', timestamp = JNum 1000, path = Some (1::int)\<rparr>;
        Y = \<lparr>op_id = JNum 0, op_type = JStr ''draw'', userId = JStr ''B'', timestamp = JNum 1060, path = Some 2\<rparr>;
        s = run (map (\<lambda>(now, a). AddOperation now a) [(1001, Object X), (1061, Object Y), (1062, Primitive JNull)]) constructor
    in getActiveOperations s = [X, Y] \<and> currentStateIndex s = 1
       \<and> success (fst (globalUndo s))
       \<and> result_operation (fst (globalUndo s)) = Some Y
       \<and> getActiveOperations (snd (globalUndo s)) = [X]
       \<and> result_operation (fst (globalRedo (snd (globalUndo s)))) = Some Y
       \<and> snd (globalRedo (snd (globalUndo s))) = s)"
proof -
  let ?X = "\<lparr>op_id = JNum 0, op_type = JStr ''draw'', userId = JStr ''A'', timestamp = JNum 1000, path = Some (1::int)\<rparr>"
  let ?Y = "\<lparr>op_id = JNum 0, op_type = JStr ''draw'', userId = JStr ''B'', timestamp = JNum 1060, path = Some (2::int)\<rparr>"
  let ?calls = "[(1001, Object ?X), (1061, Object ?Y), (1062, Primitive JNull)]"
  let ?s = "run (map (\<lambda>(now, a). AddOperation now a) ?calls) constructor"
  have s: "?s = \<lparr>operations = [?X, ?Y], maxOperations = 500,
                  operationTimestamps = [(JNum 0, JNum 1060)], currentStateIndex = 1,
                  userOperations = [(JStr ''A'', [?X]), (JStr ''B'', [?Y])]\<rparr>"
    by (simp add: addOperation_simps constructor_def Let_def conflict_stage_neutral assign_timestamp_def
        truncate_redo_def push_operation_def evict_oldest_def record_user_operation_def
        Map_has_def Map_get_def)
  show ?thesis
    using undo_redo_symmetry [of ?calls]
    unfolding Let_def s
    by (simp add: globalUndo_def globalRedo_def array_get_def getActiveOperations_def
        array_slice_def relative_index_def)
qed

subsection \<open>Clear\<close>

text \<open>
  Claim C5. After \<^verbatim>\<open>clear()\<close> in any state the active operations are exactly
  the returned operation, whose type is \<^verbatim>\<open>clear\<close> and whose userId is
  \<^verbatim>\<open>system\<close>, and the cursor is 0; a following \<^verbatim>\<open>globalUndo\<close> succeeds and
  leaves the cursor at \<open>-1\<close> with no active operation.
\<close>

theorem clear_is_hard_reset:
  "(let c = fst (clear now1 now2 s);
        s1 = snd (clear now1 now2 s)
    in getActiveOperations s1 = [c]
       \<and> op_type c = JStr ''clear'' \<and> userId c = JStr ''system''
       \<and> currentStateIndex s1 = 0
       \<and> fst (globalUndo s1) = Success (Some c) []
       \<and> success (fst (globalUndo s1))
       \<and> currentStateIndex (snd (globalUndo s1)) = - 1
       \<and> getActiveOperations (snd (globalUndo s1)) = [])"
  by (simp add: clear_def globalUndo_def getActiveOperations_def array_slice_def
      relative_index_def array_get_def Let_def)

theorem clear_is_hard_reset_witness:
  "(let X = \<lparr>op_id = JNum 0, op_type = JStr ''draw'', userId = JStr ''A'', timestamp = JNum 1000, path = Some (1::int)\<rparr>;
        s = \<lparr>operations = [X, X], maxOperations = 500, operationTimestamps = [(JNum 0, JNum 1000)],
             currentStateIndex = 0, userOperations = [(JStr ''A'', [X, X])]\<rparr>;
        c = \<lparr>op_id = JStr ''clear_1234'', op_type = JStr ''clear'', userId = JStr ''system'',
             timestamp = JNum 1235, path = None\<rparr>
    in clear 1234 1235 s =
         (c, \<lparr>operations = [c], maxOperations = 500, operationTimestamps = [],
              currentStateIndex = 0, userOperations = []\<rparr>)
       \<and> getActiveOperations (snd (clear 1234 1235 s)) = [c]
       \<and> fst (globalUndo (snd (clear 1234 1235 s))) = Success (Some c) []
       \<and> currentStateIndex (snd (globalUndo (snd (clear 1234 1235 s)))) = - 1
       \<and> getActiveOperations (snd (globalUndo (snd (clear 1234 1235 s)))) = [])"
proof -
  let ?X = "\<lparr>op_id = JNum 0, op_type = JStr ''draw'', userId = JStr ''A'', timestamp = JNum 1000, path = Some (1::int)\<rparr>"
  let ?s = "\<lparr>operations = [?X, ?X], maxOperations = 500, operationTimestamps = [(JNum 0, JNum 1000)],
             currentStateIndex = 0, userOperations = [(JStr ''A'', [?X, ?X])]\<rparr>"
  have str: "string_of_int 1234 = ''1234''"
    by (simp add: string_of_int_def digit_char_def decimal_digits.simps)
  have c: "clear 1234 1235 ?s =
      (\<lparr>op_id = JStr ''clear_1234'', op_type = JStr ''clear'', userId = JStr ''system'',
             timestamp = JNum 1235, path = None\<rparr>,
       \<lparr>operations = [\<lparr>op_id = JStr ''clear_1234'', op_type = JStr ''clear'', userId = JStr ''system'',
             timestamp = JNum 1235, path = None\<rparr>], maxOperations = 500, operationTimestamps = [],
              currentStateIndex = 0, userOperations = []\<rparr>)"
    by (simp add: clear_def str Let_def)
  show ?thesis
    using clear_is_hard_reset [of 1234 1235 ?s]
    unfolding Let_def c fst_conv snd_conv by simp
qed

subsection \<open>Failing calls\<close>

text \<open>
  Claim C6. A call that fails leaves the state unchanged: \<^verbatim>\<open>addOperation\<close>
  whenever it returns false, in particular for an argument without \<^verbatim>\<open>id\<close>,
  \<^verbatim>\<open>userId\<close> or \<^verbatim>\<open>type\<close>; \<^verbatim>\<open>globalUndo\<close> whenever it reports no success, which
  it does at cursor \<open>-1\<close>; \<^verbatim>\<open>globalRedo\<close> whenever it reports no success, which
  it does when the cursor is at the last index.
\<close>

theorem failing_calls_change_nothing:
  "(fst (addOperation now a s) = False \<longrightarrow> snd (addOperation now a s) = s)
   \<and> (\<not> success (fst (globalUndo s)) \<longrightarrow> snd (globalUndo s) = s)
   \<and> (\<not> success (fst (globalRedo s)) \<longrightarrow> snd (globalRedo s) = s)
   \<and> (prop_id a = JUndefined \<or> prop_userId a = JUndefined \<or> prop_type a = JUndefined
        \<longrightarrow> addOperation now a s = (False, s))
   \<and> (currentStateIndex s = - 1 \<longrightarrow> globalUndo s = (Failure, s))
   \<and> (currentStateIndex s = int (length (operations s)) - 1 \<longrightarrow> globalRedo s = (Failure, s))"
  by (cases a) (auto simp: addOperation_simps globalUndo_def globalRedo_def Let_def)

theorem failing_calls_change_nothing_witness:
  "(let X = \<lparr>op_id = JNum 0, op_type = JStr ''draw'', userId = JStr ''A'', timestamp = JNum 1000, path = Some (1::int)\<rparr>;
        s0 = \<lparr>operations = [X], maxOperations = 500, operationTimestamps = [(JNum 0, JNum 1000)],
              currentStateIndex = 0, userOperations = [(JStr ''A'', [X])]\<rparr>;
        sU = \<lparr>operations = [X], maxOperations = 500, operationTimestamps = [(JNum 0, JNum 1000)],
              currentStateIndex = - 1, userOperations = [(JStr ''A'', [X])]\<rparr>;
        bad = Object \<lparr>op_id = JUndefined, op_type = JStr ''draw'', userId = JStr ''B'', timestamp = JNum 1500, path = Some 2\<rparr>
    in prop_id bad = JUndefined
       \<and> addOperation 1501 bad s0 = (False, s0)
       \<and> currentStateIndex sU = - 1
       \<and> globalUndo sU = (Failure, sU)
       \<and> currentStateIndex s0 = int (length (operations s0)) - 1
       \<and> globalRedo s0 = (Failure, s0))"
proof -
  let ?X = "\<lparr>op_id = JNum 0, op_type = JStr ''draw'', userId = JStr ''A'', timestamp = JNum 1000, path = Some (1::int)\<rparr>"
  let ?s0 = "\<lparr>operations = [?X], maxOperations = 500, operationTimestamps = [(JNum 0, JNum 1000)],
              currentStateIndex = 0, userOperations = [(JStr ''A'', [?X])]\<rparr>"
  let ?sU = "\<lparr>operations = [?X], maxOperations = 500, operationTimestamps = [(JNum 0, JNum 1000)],
              currentStateIndex = - 1, userOperations = [(JStr ''A'', [?X])]\<rparr>"
  let ?bad = "Object \<lparr>op_id = JUndefined, op_type = JStr ''draw'', userId = JStr ''B'', timestamp = JNum 1500, path = Some (2::int)\<rparr>"
  show ?thesis
    using failing_calls_change_nothing [of 1501 ?bad ?s0]
      failing_calls_change_nothing [of 1501 ?bad ?sU]
    unfolding Let_def by simp
qed

subsection \<open>Validation, conflicts and timestamps\<close>




text \<open>
  Claim C8, as amended. The operation stored by \<^verbatim>\<open>addOperation\<close> keeps the
  submitted timestamp exactly when that timestamp is truthy; a falsy one
  (\<^verbatim>\<open>undefined\<close>, \<^verbatim>\<open>null\<close>, \<^verbatim>\<open>false\<close>, \<^verbatim>\<open>0\<close>, the empty string) is replaced by the
  clock reading.
\<close>

theorem timestamp_kept_iff_truthy:
  assumes "op_id r \<noteq> JUndefined" and "truthy (userId r)" and "truthy (op_type r)"
    and "1 \<le> maxOperations s"
  shows "timestamp (last (operations (snd (addOperation now (Object r) s)))) =
           (if truthy (timestamp r) then timestamp r else JNum now)"
proof -
  have res: "addOperation now (Object r) s =
      (True, evict_oldest (push_operation (assign_timestamp now r) (truncate_redo s)))"
    by (rule addOperation_valid [OF assms(1-3)])
  have "1 \<le> maxOperations (truncate_redo s)"
    using assms(4) by (simp add: truncate_redo_max)
  from push_evict_last [OF this, of "assign_timestamp now r"]
  show ?thesis
    unfolding res by (simp add: assign_timestamp_def)
qed

theorem timestamp_kept_iff_truthy_witness:
  "(let Y = \<lparr>op_id = JNum 0, op_type = JStr ''draw'', userId = JStr ''B'', timestamp = JNum 1050, path = Some (2::int)\<rparr>;
        Z = \<lparr>op_id = JNum 1, op_type = JStr ''draw'', userId = JStr ''A'', timestamp = JUndefined, path = Some (3::int)\<rparr>
    in op_id Y \<noteq> JUndefined \<and> truthy (userId Y) \<and> truthy (op_type Y)
       \<and> op_id Z \<noteq> JUndefined \<and> truthy (userId Z) \<and> truthy (op_type Z)
       \<and> 1 \<le> maxOperations (constructor :: int state)
       \<and> timestamp (last (operations (snd (addOperation 1700 (Object Y) constructor)))) = JNum 1050
       \<and> timestamp (last (operations (snd (addOperation 1700 (Object Z) constructor)))) = JNum 1700)"
  using timestamp_kept_iff_truthy
      [of "\<lparr>op_id = JNum 0, op_type = JStr ''draw'', userId = JStr ''B'', timestamp = JNum 1050, path = Some (2::int)\<rparr>"
          constructor 1700]
    timestamp_kept_iff_truthy
      [of "\<lparr>op_id = JNum 1, op_type = JStr ''draw'', userId = JStr ''A'', timestamp = JUndefined, path = Some (3::int)\<rparr>"
          constructor 1700]
  unfolding Let_def by (simp add: constructor_def)

text \<open>
  Claim C8 as written fails for a client that supplies the timestamp \<^verbatim>\<open>0\<close>:
  the operation is accepted and stored with the clock reading instead.
\<close>

theorem zero_timestamp_replaced:
  "timestamp \<lparr>op_id = JNum 1, op_type = JStr ''draw'', userId = JStr ''A'', timestamp = JNum 0, path = Some (1::int)\<rparr>
      \<noteq> JUndefined
   \<and> fst (addOperation 1700000000000
         (Object \<lparr>op_id = JNum 1, op_type = JStr ''draw'', userId = JStr ''A'', timestamp = JNum 0, path = Some (1::int)\<rparr>)
         constructor) = True
   \<and> operations (snd (addOperation 1700000000000
         (Object \<lparr>op_id = JNum 1, op_type = JStr ''draw'', userId = JStr ''A'', timestamp = JNum 0, path = Some (1::int)\<rparr>)
         constructor)) =
       [\<lparr>op_id = JNum 1, op_type = JStr ''draw'', userId = JStr ''A'', timestamp = JNum 1700000000000, path = Some (1::int)\<rparr>]
   \<and> timestamp (last (operations (snd (addOperation 1700000000000
         (Object \<lparr>op_id = JNum 1, op_type = JStr ''draw'', userId = JStr ''A'', timestamp = JNum 0, path = Some (1::int)\<rparr>)
         constructor)))) \<noteq> JNum 0"
  by (simp add: addOperation_simps constructor_def Let_def conflict_stage_neutral assign_timestamp_def
        truncate_redo_def push_operation_def evict_oldest_def)

text \<open>
  Claim C10. \<^verbatim>\<open>addOperation\<close> returns false exactly when the argument is
  falsy, its \<^verbatim>\<open>id\<close> is \<^verbatim>\<open>undefined\<close>, or its \<^verbatim>\<open>userId\<close> or \<^verbatim>\<open>type\<close> is falsy. So
  an operation with truthy \<^verbatim>\<open>userId\<close> and \<^verbatim>\<open>type\<close> is accepted with the id
  \<^verbatim>\<open>null\<close>, \<^verbatim>\<open>0\<close> or the empty string, and an operation whose \<^verbatim>\<open>userId\<close> or \<^verbatim>\<open>type\<close>
  is the empty string is rejected.
\<close>

theorem addOperation_rejects_iff:
  "((fst (addOperation now a s) = False) =
      (\<not> arg_truthy a \<or> prop_id a = JUndefined \<or> \<not> truthy (prop_userId a) \<or> \<not> truthy (prop_type a)))
   \<and> (truthy (userId r) \<and> truthy (op_type r) \<longrightarrow>
        fst (addOperation now (Object (r\<lparr>op_id := JNull\<rparr>)) s) = True
        \<and> fst (addOperation now (Object (r\<lparr>op_id := JNum 0\<rparr>)) s) = True
        \<and> fst (addOperation now (Object (r\<lparr>op_id := JStr ''''\<rparr>)) s) = True)
   \<and> fst (addOperation now (Object (r\<lparr>userId := JStr ''''\<rparr>)) s) = False
   \<and> fst (addOperation now (Object (r\<lparr>op_type := JStr ''''\<rparr>)) s) = False"
  by (cases a) (auto simp: addOperation_simps Let_def)

theorem addOperation_rejects_iff_witness:
  "(let r = \<lparr>op_id = JNum 7, op_type = JStr ''draw'', userId = JStr ''A'', timestamp = JNum 1000, path = Some (1::int)\<rparr>
    in truthy (userId r) \<and> truthy (op_type r)
       \<and> fst (addOperation 1001 (Object (r\<lparr>op_id := JNull\<rparr>)) constructor) = True
       \<and> fst (addOperation 1001 (Object (r\<lparr>op_id := JNum 0\<rparr>)) constructor) = True
       \<and> fst (addOperation 1001 (Object (r\<lparr>op_id := JStr ''''\<rparr>)) constructor) = True
       \<and> fst (addOperation 1001 (Object (r\<lparr>op_id := JUndefined\<rparr>)) constructor) = False
       \<and> fst (addOperation 1001 (Object (r\<lparr>userId := JStr ''''\<rparr>)) constructor) = False
       \<and> fst (addOperation 1001 (Object (r\<lparr>op_type := JStr ''''\<rparr>)) constructor) = False
       \<and> fst (addOperation 1001 (Primitive JNull) (constructor :: int state)) = False
       \<and> fst (addOperation 1001 (Primitive (JStr ''draw'')) (constructor :: int state)) = False)"
proof -
  let ?r = "\<lparr>op_id = JNum 7, op_type = JStr ''draw'', userId = JStr ''A'', timestamp = JNum 1000, path = Some (1::int)\<rparr>"
  show ?thesis
    using addOperation_rejects_iff [of 1001 "Object (?r\<lparr>op_id := JUndefined\<rparr>)" constructor ?r]
      addOperation_rejects_iff [of 1001 "Primitive JNull" "constructor :: int state" ?r]
      addOperation_rejects_iff [of 1001 "Primitive (JStr ''draw'')" "constructor :: int state" ?r]
    unfolding Let_def by simp
qed

subsection \<open>Statistics\<close>

text \<open>
  Claim C9, as amended. After every call sequence on a fresh manager,
  \<^verbatim>\<open>getStats().activeUsers\<close> is the number of distinct userIds among the
  operations that \<^verbatim>\<open>addOperation\<close> accepted since the most recent \<^verbatim>\<open>clear()\<close>;
  when the sequence contains no \<^verbatim>\<open>clear()\<close> this is the number of distinct
  userIds ever accepted.
\<close>

theorem active_users_since_clear:
  "activeUsers (getStats (run cs constructor)) = card (set (accepted_since_clear [] cs constructor))
   \<and> (list_all (\<lambda>c. \<not> is_clear c) cs \<longrightarrow>
        activeUsers (getStats (run cs constructor)) = card (set (accepted_ever [] cs constructor)))"
proof -
  have "users_inv [] (constructor :: 'a state)"
    by (simp add: users_inv_def constructor_def)
  from active_users_run [OF this, of cs]
  show ?thesis
    by (simp add: getStats_def no_clear_same)
qed

theorem active_users_since_clear_witness:
  "(let X = \<lparr>op_id = JNum 0, op_type = JStr ''draw'', userId = JStr ''A'', timestamp = JNum 1000, path = Some (1::int)\<rparr>;
        Y = \<lparr>op_id = JNum 0, op_type = JStr ''draw'', userId = JStr ''B'', timestamp = JNum 1050, path = Some 2\<rparr>;
        Z = \<lparr>op_id = JNum 1, op_type = JStr ''draw'', userId = JStr ''A'', timestamp = JNum 1300, path = Some 3\<rparr>;
        bad = \<lparr>op_id = JNum 1, op_type = JStr ''draw'', userId = JStr '''', timestamp = JNum 1300, path = Some 4\<rparr>;
        cs = [AddOperation 1001 (Object X), AddOperation 1051 (Object Y), AddOperation 1301 (Object Z),
              AddOperation 1302 (Object bad), GlobalUndo, GlobalUndo, GlobalRedo];
        cs' = cs @ [Clear 2000 2001, AddOperation 2101 (Object Y), AddOperation 2201 (Object Y)]
    in list_all (\<lambda>c. \<not> is_clear c) cs
       \<and> accepted_ever [] cs constructor = [JStr ''A'', JStr ''B'', JStr ''A'']
       \<and> activeUsers (getStats (run cs constructor)) = 2
       \<and> accepted_since_clear [] cs' constructor = [JStr ''B'', JStr ''B'']
       \<and> activeUsers (getStats (run cs' constructor)) = 1)"
proof -
  let ?X = "\<lparr>op_id = JNum 0, op_type = JStr ''draw'', userId = JStr ''A'', timestamp = JNum 1000, path = Some (1::int)\<rparr>"
  let ?Y = "\<lparr>op_id = JNum 0, op_type = JStr ''draw'', userId = JStr ''B'', timestamp = JNum 1050, path = Some (2::int)\<rparr>"
  let ?Z = "\<lparr>op_id = JNum 1, op_type = JStr ''draw'', userId = JStr ''A'', timestamp = JNum 1300, path = Some (3::int)\<rparr>"
  let ?bad = "\<lparr>op_id = JNum 1, op_type = JStr ''draw'', userId = JStr '''', timestamp = JNum 1300, path = Some (4::int)\<rparr>"
  let ?cs = "[AddOperation 1001 (Object ?X), AddOperation 1051 (Object ?Y), AddOperation 1301 (Object ?Z),
              AddOperation 1302 (Object ?bad), GlobalUndo, GlobalUndo, GlobalRedo]"
  let ?cs' = "?cs @ [Clear 2000 2001, AddOperation 2101 (Object ?Y), AddOperation 2201 (Object ?Y)]"
  have noclear: "list_all (\<lambda>c. \<not> is_clear c) ?cs"
    by simp
  have ever: "accepted_ever [] ?cs constructor = [JStr ''A'', JStr ''B'', JStr ''A'']"
    by (simp add: addOperation_simps Let_def)
  have since: "accepted_since_clear [] ?cs' constructor = [JStr ''B'', JStr ''B'']"
    by (simp add: addOperation_simps Let_def)
  have c2: "card (set [JStr ''A'', JStr ''B'', JStr ''A'']) = 2"
    by (simp add: card_insert_if)
  have c1: "card (set [JStr ''B'', JStr ''B'']) = 1"
    by (simp add: card_insert_if)
  show ?thesis
    using active_users_since_clear [of ?cs] active_users_since_clear [of ?cs']
    unfolding Let_def ever since c1 c2
    using noclear by simp
qed

text \<open>
  Claim C9 as written counts every userId accepted since the server started.
  It fails once \<^verbatim>\<open>clear()\<close> has run, because \<^verbatim>\<open>clear()\<close> empties the per-user index:
  after one accepted operation and a clear, no user is counted.
\<close>

theorem active_users_forgotten_by_clear:
  "activeUsers (getStats (run
      [AddOperation 1001 (Object \<lparr>op_id = JNum 0, op_type = JStr ''draw'', userId = JStr ''A'',
                                  timestamp = JNum 1000, path = Some (1::int)\<rparr>),
       Clear 2000 2001] constructor)) = 0
   \<and> accepted_ever []
      [AddOperation 1001 (Object \<lparr>op_id = JNum 0, op_type = JStr ''draw'', userId = JStr ''A'',
                                  timestamp = JNum 1000, path = Some (1::int)\<rparr>),
       Clear 2000 2001] constructor = [JStr ''A'']
   \<and> activeUsers (getStats (run
      [AddOperation 1001 (Object \<lparr>op_id = JNum 0, op_type = JStr ''draw'', userId = JStr ''A'',
                                  timestamp = JNum 1000, path = Some (1::int)\<rparr>),
       Clear 2000 2001] constructor))
      \<noteq> card (set (accepted_ever []
      [AddOperation 1001 (Object \<lparr>op_id = JNum 0, op_type = JStr ''draw'', userId = JStr ''A'',
                                  timestamp = JNum 1000, path = Some (1::int)\<rparr>),
       Clear 2000 2001] constructor))"
  by (simp add: addOperation_simps constructor_def Let_def conflict_stage_neutral assign_timestamp_def
        truncate_redo_def push_operation_def evict_oldest_def record_user_operation_def
        Map_has_def Map_get_def Map_size_def globalUndo_def globalRedo_def clear_def getStats_def)

end
